theory Spec2Isabelle
  imports Main "HOL-Library.Word"
begin

section \<open>The auto-continue script (src/auto-continue.js)\<close>

text \<open>
  The script is one closure over four variables (\<open>lastClick\<close>, \<open>intervalId\<close>,
  \<open>observer\<close>, \<open>paused\<close>), a floating control panel, and two trigger sources
  registered with the host: an interval timer and a mutation observer, both calling
  \<open>clickIfFound\<close>. The variant with the log window (src/unnamed/part\_001) has the
  same control flow; it adds a log entry and drops the console messages of
  start, pause and stop.
\<close>

subsection \<open>Strings and elements\<close>

text \<open>
  A JavaScript string is a sequence of UTF-16 code units. \<open>String.prototype.trim\<close>
  removes white space and line terminators from both ends: TAB, LF, VT, FF, CR, SP,
  NBSP, the Unicode space separators, LS, PS and the byte order mark.
\<close>

type_synonym jsstring = "16 word list"

definition str :: "string \<Rightarrow> jsstring" where
  "str cs = map (\<lambda>c. of_nat (of_char c :: nat)) cs"

definition isWhiteSpace :: "16 word \<Rightarrow> bool" where
  "isWhiteSpace c \<longleftrightarrow> c \<in> set [0x0009, 0x000A, 0x000B, 0x000C, 0x000D, 0x0020, 0x00A0,
     0x1680, 0x2000, 0x2001, 0x2002, 0x2003, 0x2004, 0x2005, 0x2006, 0x2007, 0x2008,
     0x2009, 0x200A, 0x2028, 0x2029, 0x202F, 0x205F, 0x3000, 0xFEFF]"

definition trim :: "jsstring \<Rightarrow> jsstring" where
  "trim t = rev (dropWhile isWhiteSpace (rev (dropWhile isWhiteSpace t)))"

text \<open>
  An HTML element, as far as the script reads it: its identity, tag, classes,
  \<open>offsetParent\<close> (a node or null) and \<open>textContent\<close>. A document is the list of
  its elements in document order.
\<close>

record element =
  nodeId :: nat
  localName :: string
  classList :: "string list"
  offsetParent :: "nat option"
  textContent :: jsstring

type_synonym document = "element list"

definition COOLDOWN_MS :: int where
  "COOLDOWN_MS = 2500"

definition isVisible :: "element \<Rightarrow> bool" where
  "isVisible el \<longleftrightarrow> offsetParent el \<noteq> None"

text \<open>\<open>document.querySelectorAll('a.monaco-button.monaco-text-button')\<close>\<close>

definition querySelectorAll :: "document \<Rightarrow> element list" where
  "querySelectorAll doc =
     filter (\<lambda>el. localName el = ''a'' \<and> ''monaco-button'' \<in> set (classList el)
                  \<and> ''monaco-text-button'' \<in> set (classList el)) doc"

subsection \<open>State\<close>

text \<open>
  The closure's variables, the part of the panel the script writes, the host's
  registry of this script's timers and observers, and what the script has done
  (activations, queries, console lines). A timer handle is an integer greater
  than zero; \<open>truthy\<close> is JavaScript's test of \<open>if (intervalId)\<close>.
\<close>

record state =
  lastClick :: int
  intervalId :: "nat option"
  observer :: "nat option"
  paused :: bool
  startBtn_disabled :: bool
  pauseBtn_disabled :: bool
  stopBtn_disabled :: bool
  panel_attached :: bool
  stop_exposed :: bool
  timers :: "nat list"
  timer_seq :: nat
  observing :: "nat list"
  observer_seq :: nat
  clicks :: "(int \<times> element) list"
  queries :: nat
  console :: "string list"

datatype outcome = Normal | TypeError

fun truthy :: "nat option \<Rightarrow> bool" where
  "truthy None = False"
| "truthy (Some h) = (h \<noteq> 0)"

subsection \<open>clickIfFound\<close>

text \<open>The \<open>for\<close> loop over the buttons: the first visible one labelled Continue is
  clicked and the loop breaks.\<close>

fun scan_buttons :: "int \<Rightarrow> element list \<Rightarrow> state \<Rightarrow> state" where
  "scan_buttons now [] s = s"
| "scan_buttons now (btn # rest) s =
     (if \<not> isVisible btn then scan_buttons now rest s
      else if trim (textContent btn) = str ''Continue'' then
        s\<lparr>clicks := clicks s @ [(now, btn)],
          lastClick := now,
          console := console s @ [''[auto] Clicked Continue'']\<rparr>
      else scan_buttons now rest s)"

definition clickIfFound :: "int \<Rightarrow> document \<Rightarrow> state \<Rightarrow> state" where
  "clickIfFound now doc s =
     (if paused s then s
      else if now - lastClick s < COOLDOWN_MS then s
      else scan_buttons now (querySelectorAll doc) (s\<lparr>queries := Suc (queries s)\<rparr>))"

subsection \<open>The session controller\<close>

definition updateButtons :: "state \<Rightarrow> state" where
  "updateButtons s =
     s\<lparr>startBtn_disabled := truthy (intervalId s),
       pauseBtn_disabled := \<not> truthy (intervalId s),
       stopBtn_disabled := (\<not> truthy (intervalId s) \<and> \<not> paused s)\<rparr>"

text \<open>\<open>setInterval\<close> hands out the next handle and registers it;
  \<open>clearInterval\<close> removes it; \<open>new MutationObserver\<close> creates an object that
  observes nothing until \<open>observe\<close>; \<open>disconnect\<close> ends its observation.\<close>

definition setInterval :: "state \<Rightarrow> nat \<times> state" where
  "setInterval s =
     (Suc (timer_seq s), s\<lparr>timers := timers s @ [Suc (timer_seq s)], timer_seq := Suc (timer_seq s)\<rparr>)"

definition clearInterval :: "nat \<Rightarrow> state \<Rightarrow> state" where
  "clearInterval h s = s\<lparr>timers := removeAll h (timers s)\<rparr>"

definition newMutationObserver :: "state \<Rightarrow> nat \<times> state" where
  "newMutationObserver s = (Suc (observer_seq s), s\<lparr>observer_seq := Suc (observer_seq s)\<rparr>)"

definition disconnect :: "nat \<Rightarrow> state \<Rightarrow> state" where
  "disconnect ob s = s\<lparr>observing := removeAll ob (observing s)\<rparr>"

text \<open>
  \<open>startAuto\<close>. The argument says whether \<open>document.body\<close> is an element:
  \<open>observer.observe(null, ...)\<close> throws a TypeError, after the timer has been
  registered and both variables assigned.
\<close>

definition startAuto :: "bool \<Rightarrow> state \<Rightarrow> outcome \<times> state" where
  "startAuto body s =
     (if truthy (intervalId s) then (Normal, s)
      else
        let s1 = s\<lparr>paused := False\<rparr>;
            (h, s2) = setInterval s1;
            s3 = s2\<lparr>intervalId := Some h\<rparr>;
            (ob, s4) = newMutationObserver s3;
            s5 = s4\<lparr>observer := Some ob\<rparr>
        in if \<not> body then (TypeError, s5)
           else
             let s6 = s5\<lparr>observing := observing s5 @ [ob]\<rparr>;
                 s7 = updateButtons s6
             in (Normal, s7\<lparr>console := console s7 @ [''[auto] started'']\<rparr>))"

text \<open>\<open>pauseAuto\<close> and \<open>stopAuto\<close> call \<open>observer.disconnect()\<close>, which throws
  when \<open>observer\<close> is null.\<close>

definition pauseAuto :: "state \<Rightarrow> outcome \<times> state" where
  "pauseAuto s =
     (if \<not> truthy (intervalId s) then (Normal, s)
      else
        let s1 = clearInterval (the (intervalId s)) s
        in case observer s1 of
             None \<Rightarrow> (TypeError, s1)
           | Some ob \<Rightarrow>
               let s2 = disconnect ob s1;
                   s3 = s2\<lparr>intervalId := None\<rparr>;
                   s4 = s3\<lparr>paused := True\<rparr>;
                   s5 = updateButtons s4
               in (Normal, s5\<lparr>console := console s5 @ [''[auto] paused'']\<rparr>))"

text \<open>The statements of \<open>stopAuto\<close> after its \<open>if\<close>: clear \<open>paused\<close>,
  refresh the buttons, log.\<close>

definition stopAuto_tail :: "state \<Rightarrow> outcome \<times> state" where
  "stopAuto_tail s =
     (let s1 = s\<lparr>paused := False\<rparr>;
          s2 = updateButtons s1
      in (Normal, s2\<lparr>console := console s2 @ [''[auto] stopped'']\<rparr>))"

definition stopAuto :: "state \<Rightarrow> outcome \<times> state" where
  "stopAuto s =
     (if truthy (intervalId s) then
        let s1 = clearInterval (the (intervalId s)) s
        in case observer s1 of
             None \<Rightarrow> (TypeError, s1)
           | Some ob \<Rightarrow> stopAuto_tail ((disconnect ob s1)\<lparr>intervalId := None\<rparr>)
      else stopAuto_tail s)"

subsection \<open>Session State\<close>

text \<open>The spec's Session State is read off the two variables that carry it:
  Running when \<open>intervalId\<close> is set, Paused when it is not and \<open>paused\<close> is true,
  Stopped otherwise.\<close>

datatype session = Stopped | Running | Paused

definition sessionState :: "state \<Rightarrow> session" where
  "sessionState s =
     (if truthy (intervalId s) then Running else if paused s then Paused else Stopped)"

subsection \<open>Loading the script, and the events that reach it\<close>

text \<open>The closure's variables at their declarations, the buttons just created
  (enabled), nothing attached or registered yet.\<close>

definition initial :: state where
  "initial =
     \<lparr>lastClick = 0, intervalId = None, observer = None, paused = False,
      startBtn_disabled = False, pauseBtn_disabled = False, stopBtn_disabled = False,
      panel_attached = False, stop_exposed = False,
      timers = [], timer_seq = 0, observing = [], observer_seq = 0,
      clicks = [], queries = 0, console = []\<rparr>"

text \<open>The last lines of the script: append the panel to \<open>document.body\<close> (a
  TypeError when it is null), \<open>updateButtons()\<close>, \<open>startAuto()\<close>, and expose
  \<open>window.stopAutoContinue\<close>.\<close>

definition script :: "bool \<Rightarrow> outcome \<times> state" where
  "script body =
     (if \<not> body then (TypeError, initial)
      else
        let s1 = initial\<lparr>panel_attached := True\<rparr>;
            s2 = updateButtons s1;
            (r, s3) = startAuto body s2
        in case r of
             TypeError \<Rightarrow> (TypeError, s3)
           | Normal \<Rightarrow> (Normal, s3\<lparr>stop_exposed := True\<rparr>))"

definition loaded :: state where
  "loaded = snd (script True)"

text \<open>
  What can call into the closure afterwards: a callback of an active timer or of a
  connected observer (each with the clock reading and the document it finds), a
  click on a panel button (delivered only while the panel is in the document and
  the button is not disabled; a click on Start carries whether \<open>document.body\<close>
  is an element at that moment), and \<open>window.stopAutoContinue()\<close>.
\<close>

datatype event =
    TimerTick int document
  | Mutation int document
  | PressStart bool
  | PressPause
  | PressStop
  | PressClose
  | ConsoleStop

fun fire :: "event \<Rightarrow> state \<Rightarrow> state" where
  "fire (TimerTick now doc) s = (if timers s \<noteq> [] then clickIfFound now doc s else s)"
| "fire (Mutation now doc) s = (if observing s \<noteq> [] then clickIfFound now doc s else s)"
| "fire (PressStart body) s =
     (if panel_attached s \<and> \<not> startBtn_disabled s then snd (startAuto body s) else s)"
| "fire PressPause s =
     (if panel_attached s \<and> \<not> pauseBtn_disabled s then snd (pauseAuto s) else s)"
| "fire PressStop s =
     (if panel_attached s \<and> \<not> stopBtn_disabled s then snd (stopAuto s) else s)"
| "fire PressClose s = (if panel_attached s then s\<lparr>panel_attached := False\<rparr> else s)"
| "fire ConsoleStop s = (if stop_exposed s then snd (stopAuto s) else s)"

fun run :: "event list \<Rightarrow> state \<Rightarrow> state" where
  "run [] s = s"
| "run (e # es) s = run es (fire e s)"

text \<open>A history in which \<open>document.body\<close> was an element at every click on Start.\<close>

fun body_present :: "event \<Rightarrow> bool" where
  "body_present (PressStart body) = body"
| "body_present _ = True"

fun is_start :: "event \<Rightarrow> bool" where
  "is_start (PressStart body) = True"
| "is_start _ = False"

subsection \<open>Sample elements\<close>

definition continue_button :: element where
  "continue_button =
     \<lparr>nodeId = 1, localName = ''a'', classList = [''monaco-button'', ''monaco-text-button''],
      offsetParent = Some 0, textContent = str ''Continue''\<rparr>"

subsection \<open>Predicates used in the statements\<close>

text \<open>The spec's qualifying element (among those the selector returns): it passes the
  Visibility Predicate and its trimmed text equals the expected label.\<close>

definition qualifies :: "element \<Rightarrow> bool" where
  "qualifies el \<longleftrightarrow> isVisible el \<and> trim (textContent el) = str ''Continue''"

text \<open>The three effects of the loop's matching branch, for stating what a scan did.\<close>

definition activated :: "int \<Rightarrow> element \<Rightarrow> state \<Rightarrow> state" where
  "activated now btn s =
     s\<lparr>clicks := clicks s @ [(now, btn)], lastClick := now,
       console := console s @ [''[auto] Clicked Continue'']\<rparr>"

text \<open>The enablement of Start, Pause and Stop as the panel shows it, and as the spec
  projects it from the Session State.\<close>

definition panel_enabled :: "state \<Rightarrow> bool \<times> bool \<times> bool" where
  "panel_enabled s = (\<not> startBtn_disabled s, \<not> pauseBtn_disabled s, \<not> stopBtn_disabled s)"

definition panel_projection :: "session \<Rightarrow> bool \<times> bool \<times> bool" where
  "panel_projection st = (st \<noteq> Running, st = Running, st = Running \<or> st = Paused)"

text \<open>
  \<open>wired\<close> holds in every state the loaded script reaches: the only active timer is
  the one in \<open>intervalId\<close>, the only connected observer is the one in \<open>observer\<close>
  and only while \<open>intervalId\<close> is set, and the buttons are up to date whenever
  \<open>intervalId\<close> is null. \<open>healthy\<close> adds what holds as long as no
  \<open>observe\<close> has thrown: the buttons are always up to date and a set
  \<open>intervalId\<close> comes with a connected observer. \<open>spaced\<close> is the cooldown
  invariant of the activation log.
\<close>

definition wired :: "state \<Rightarrow> bool" where
  "wired s \<longleftrightarrow>
     intervalId s \<noteq> Some 0 \<and>
     timers s = (case intervalId s of None \<Rightarrow> [] | Some h \<Rightarrow> [h]) \<and>
     (intervalId s \<noteq> None \<longrightarrow> observer s \<noteq> None) \<and>
     (observing s = [] \<or> (intervalId s \<noteq> None \<and> observing s = [the (observer s)])) \<and>
     (intervalId s = None \<longrightarrow> panel_enabled s = panel_projection (sessionState s)) \<and>
     stop_exposed s"

definition healthy :: "state \<Rightarrow> bool" where
  "healthy s \<longleftrightarrow>
     wired s \<and> panel_enabled s = panel_projection (sessionState s) \<and>
     (intervalId s \<noteq> None \<longrightarrow> observing s \<noteq> [])"

definition last_activation :: "state \<Rightarrow> int" where
  "last_activation s = (if clicks s = [] then 0 else fst (last (clicks s)))"

definition spaced :: "state \<Rightarrow> bool" where
  "spaced s \<longleftrightarrow>
     sorted_wrt (\<lambda>a b. a + COOLDOWN_MS \<le> b) (map fst (clicks s)) \<and>
     (\<forall>t \<in> set (map fst (clicks s)). t \<le> lastClick s) \<and>
     lastClick s = last_activation s"

text \<open>Sample elements and event sequences for the concrete instances.\<close>

definition hidden_continue :: element where
  "hidden_continue = continue_button\<lparr>nodeId := 0, offsetParent := None\<rparr>"

definition second_continue :: element where
  "second_continue = continue_button\<lparr>nodeId := 2\<rparr>"

definition continue_anyway :: element where
  "continue_anyway = continue_button\<lparr>nodeId := 3, textContent := str ''Continue Anyway''\<rparr>"

definition lowercase_continue :: element where
  "lowercase_continue = continue_button\<lparr>nodeId := 4, textContent := str '' continue ''\<rparr>"

definition burst :: "event list" where
  "burst = [TimerTick 5000 [continue_button, second_continue],
            Mutation 5001 [second_continue],
            Mutation 7499 [second_continue],
            TimerTick 7500 [second_continue]]"

definition after_close :: "event list" where
  "after_close = [PressStop, PressPause, PressStart True, TimerTick 5000 [continue_button]]"

definition while_stopped :: "event list" where
  "while_stopped = [TimerTick 9000 [continue_button], Mutation 9001 [continue_button],
                    PressPause, PressStop, PressClose, ConsoleStop]"

definition attach_failed :: "event list" where
  "attach_failed = [PressStop, PressStart False]"

section \<open>Invariants of the running script\<close>

lemma scan_buttons_filter:
  "scan_buttons now bs s =
     (case filter qualifies bs of [] \<Rightarrow> s | b # _ \<Rightarrow> activated now b s)"
  by (induction bs) (simp_all add: qualifies_def activated_def)

lemma clickIfFound_cases:
  "clickIfFound now doc s = s \<or>
   (\<not> paused s \<and> lastClick s + COOLDOWN_MS \<le> now \<and>
    (clickIfFound now doc s = s\<lparr>queries := Suc (queries s)\<rparr> \<or>
     (\<exists>b. clickIfFound now doc s = activated now b (s\<lparr>queries := Suc (queries s)\<rparr>))))"
  by (auto simp: clickIfFound_def scan_buttons_filter split: list.splits)

lemma wired_clickIfFound: "wired s \<Longrightarrow> wired (clickIfFound now doc s)"
  using clickIfFound_cases [of now doc s]
  by (auto simp: wired_def activated_def panel_enabled_def sessionState_def)

lemma healthy_clickIfFound: "healthy s \<Longrightarrow> healthy (clickIfFound now doc s)"
  using clickIfFound_cases [of now doc s] wired_clickIfFound [of s now doc]
  by (auto simp: healthy_def activated_def panel_enabled_def sessionState_def)

lemma spaced_clickIfFound: "spaced s \<Longrightarrow> spaced (clickIfFound now doc s)"
  using clickIfFound_cases [of now doc s]
  by (fastforce simp: spaced_def activated_def sorted_wrt_append COOLDOWN_MS_def
        last_activation_def)

lemma startAuto_running: "truthy (intervalId s) \<Longrightarrow> startAuto body s = (Normal, s)"
  by (simp add: startAuto_def)

lemma wired_startAuto: "wired s \<Longrightarrow> wired (snd (startAuto body s))"
  by (auto simp: wired_def startAuto_def setInterval_def newMutationObserver_def
        updateButtons_def panel_enabled_def panel_projection_def sessionState_def Let_def
        split: option.splits)

lemma wired_pauseAuto: "wired s \<Longrightarrow> wired (snd (pauseAuto s))"
  by (auto simp: wired_def pauseAuto_def clearInterval_def disconnect_def
        updateButtons_def panel_enabled_def panel_projection_def sessionState_def Let_def
        split: option.splits)

lemma wired_stopAuto: "wired s \<Longrightarrow> wired (snd (stopAuto s))"
  by (auto simp: wired_def stopAuto_def stopAuto_tail_def clearInterval_def disconnect_def
        updateButtons_def panel_enabled_def panel_projection_def sessionState_def Let_def
        split: option.splits)

lemma wired_fire: "wired s \<Longrightarrow> wired (fire e s)"
proof (cases e)
  case PressClose
  then show "wired s \<Longrightarrow> wired (fire e s)"
    by (auto simp: wired_def panel_enabled_def sessionState_def)
qed (simp_all add: wired_clickIfFound wired_startAuto wired_pauseAuto wired_stopAuto)

lemma wired_run: "wired s \<Longrightarrow> wired (run evs s)"
  by (induction evs arbitrary: s) (simp_all add: wired_fire)

lemma loaded_eq:
  "loaded = \<lparr>lastClick = 0, intervalId = Some 1, observer = Some 1, paused = False,
    startBtn_disabled = True, pauseBtn_disabled = False,
    stopBtn_disabled = False, panel_attached = True, stop_exposed = True,
    timers = [1], timer_seq = 1, observing = [1], observer_seq = 1,
    clicks = [], queries = 0, console = [''[auto] started'']\<rparr>"
  by (simp add: loaded_def script_def startAuto_def initial_def updateButtons_def
        setInterval_def newMutationObserver_def Let_def)

lemma wired_loaded: "wired loaded"
  by (simp add: loaded_eq wired_def)

lemma healthy_loaded: "healthy loaded"
  by (simp add: loaded_eq healthy_def wired_def panel_enabled_def panel_projection_def sessionState_def)

lemma spaced_loaded: "spaced loaded"
  by (simp add: loaded_eq spaced_def last_activation_def)

lemma clickIfFound_frame:
  "intervalId (clickIfFound now doc s) = intervalId s \<and>
   observer (clickIfFound now doc s) = observer s \<and>
   paused (clickIfFound now doc s) = paused s \<and>
   timers (clickIfFound now doc s) = timers s \<and>
   observing (clickIfFound now doc s) = observing s \<and>
   panel_attached (clickIfFound now doc s) = panel_attached s \<and>
   stop_exposed (clickIfFound now doc s) = stop_exposed s \<and>
   panel_enabled (clickIfFound now doc s) = panel_enabled s"
  using clickIfFound_cases [of now doc s]
  by (auto simp: activated_def panel_enabled_def)

lemma sessionState_clickIfFound: "sessionState (clickIfFound now doc s) = sessionState s"
  by (simp add: sessionState_def clickIfFound_frame)

lemma healthy_startAuto: "healthy s \<Longrightarrow> healthy (snd (startAuto True s))"
  by (auto simp: healthy_def wired_def startAuto_def setInterval_def newMutationObserver_def
        updateButtons_def panel_enabled_def panel_projection_def sessionState_def Let_def
        split: option.splits)

lemma healthy_pauseAuto: "healthy s \<Longrightarrow> healthy (snd (pauseAuto s))"
  by (auto simp: healthy_def wired_def pauseAuto_def clearInterval_def disconnect_def
        updateButtons_def panel_enabled_def panel_projection_def sessionState_def Let_def
        split: option.splits)

lemma healthy_stopAuto: "healthy s \<Longrightarrow> healthy (snd (stopAuto s))"
  by (auto simp: healthy_def wired_def stopAuto_def stopAuto_tail_def clearInterval_def
        disconnect_def updateButtons_def panel_enabled_def panel_projection_def
        sessionState_def Let_def split: option.splits)

lemma healthy_fire: "healthy s \<Longrightarrow> body_present e \<Longrightarrow> healthy (fire e s)"
proof (cases e)
  case PressClose
  then show "healthy s \<Longrightarrow> healthy (fire e s)"
    by (auto simp: healthy_def wired_def panel_enabled_def sessionState_def)
qed (simp_all add: healthy_clickIfFound healthy_startAuto healthy_pauseAuto healthy_stopAuto)

lemma healthy_run: "healthy s \<Longrightarrow> list_all body_present evs \<Longrightarrow> healthy (run evs s)"
  by (induction evs arbitrary: s) (simp_all add: healthy_fire)

lemma spaced_startAuto: "spaced s \<Longrightarrow> spaced (snd (startAuto body s))"
  by (auto simp: spaced_def last_activation_def startAuto_def setInterval_def
        newMutationObserver_def updateButtons_def Let_def)

lemma spaced_pauseAuto: "spaced s \<Longrightarrow> spaced (snd (pauseAuto s))"
  by (auto simp: spaced_def last_activation_def pauseAuto_def clearInterval_def disconnect_def
        updateButtons_def Let_def split: option.splits)

lemma spaced_stopAuto: "spaced s \<Longrightarrow> spaced (snd (stopAuto s))"
  by (auto simp: spaced_def last_activation_def stopAuto_def stopAuto_tail_def
        clearInterval_def disconnect_def updateButtons_def Let_def split: option.splits)

lemma spaced_fire: "spaced s \<Longrightarrow> spaced (fire e s)"
proof (cases e)
  case PressClose
  then show "spaced s \<Longrightarrow> spaced (fire e s)"
    by (auto simp: spaced_def last_activation_def)
qed (simp_all add: spaced_clickIfFound spaced_startAuto spaced_pauseAuto spaced_stopAuto)

lemma spaced_run: "spaced s \<Longrightarrow> spaced (run evs s)"
  by (induction evs arbitrary: s) (simp_all add: spaced_fire)

lemmas model_defs =
  clickIfFound_def querySelectorAll_def isVisible_def trim_def str_def isWhiteSpace_def
  COOLDOWN_MS_def startAuto_def pauseAuto_def stopAuto_def stopAuto_tail_def
  updateButtons_def setInterval_def clearInterval_def newMutationObserver_def
  disconnect_def sessionState_def continue_button_def hidden_continue_def
  second_continue_def continue_anyway_def lowercase_continue_def Let_def

lemma scan_buttons_skip:
  "\<not> qualifies b \<Longrightarrow> scan_buttons now (pre @ b # post) s = scan_buttons now (pre @ post) s"
  by (simp add: scan_buttons_filter)

lemma wired_idle:
  "wired s \<Longrightarrow> sessionState s \<noteq> Running \<Longrightarrow>
     intervalId s = None \<and> timers s = [] \<and> observing s = []"
  by (cases "intervalId s") (auto simp: wired_def sessionState_def)

lemma idle_triggers:
  "wired s \<Longrightarrow> sessionState s \<noteq> Running \<Longrightarrow>
     fire (TimerTick now doc) s = s \<and> fire (Mutation now doc) s = s"
  using wired_idle [of s] by simp

lemma idle_fire:
  assumes "wired s" "intervalId s = None" "\<not> paused s" "\<not> is_start e"
  shows "intervalId (fire e s) = None \<and> \<not> paused (fire e s) \<and>
         clicks (fire e s) = clicks s \<and> queries (fire e s) = queries s"
proof -
  have idle: "timers s = [] \<and> observing s = []"
    using assms(1,2) by (auto simp: wired_def)
  show ?thesis
    using assms idle
    by (cases e) (auto simp: pauseAuto_def stopAuto_def stopAuto_tail_def updateButtons_def Let_def)
qed

lemma idle_run:
  "wired s \<Longrightarrow> intervalId s = None \<Longrightarrow> \<not> paused s \<Longrightarrow> list_all (\<lambda>e. \<not> is_start e) evs \<Longrightarrow>
     intervalId (run evs s) = None \<and> \<not> paused (run evs s) \<and>
     clicks (run evs s) = clicks s \<and> queries (run evs s) = queries s"
proof (induction evs arbitrary: s)
  case Nil
  then show ?case by simp
next
  case (Cons e evs)
  have step: "intervalId (fire e s) = None \<and> \<not> paused (fire e s) \<and>
         clicks (fire e s) = clicks s \<and> queries (fire e s) = queries s"
    using Cons.prems by (intro idle_fire) simp_all
  have "wired (fire e s)"
    using Cons.prems(1) by (rule wired_fire)
  with step Cons.prems(4) Cons.IH [of "fire e s"] show ?case by simp
qed

lemma stopAuto_effect:
  assumes "wired s"
  shows "fst (stopAuto s) = Normal \<and> intervalId (snd (stopAuto s)) = None \<and>
         \<not> paused (snd (stopAuto s)) \<and> timers (snd (stopAuto s)) = [] \<and>
         observing (snd (stopAuto s)) = [] \<and> lastClick (snd (stopAuto s)) = lastClick s \<and>
         observer (snd (stopAuto s)) = observer s \<and> clicks (snd (stopAuto s)) = clicks s \<and>
         queries (snd (stopAuto s)) = queries s"
  using assms
  by (auto simp: wired_def stopAuto_def stopAuto_tail_def clearInterval_def disconnect_def
        updateButtons_def Let_def split: option.splits)

lemma wired_stopped:
  "wired s \<Longrightarrow> sessionState s = Stopped \<Longrightarrow> intervalId s = None \<and> \<not> paused s"
  by (cases "intervalId s") (auto simp: wired_def sessionState_def split: if_splits)

lemma stopped_buttons:
  "wired s \<Longrightarrow> intervalId s = None \<Longrightarrow> \<not> paused s \<Longrightarrow>
     \<not> startBtn_disabled s \<and> pauseBtn_disabled s \<and> stopBtn_disabled s"
  by (simp add: wired_def panel_enabled_def panel_projection_def sessionState_def)

lemma updateButtons_stopped:
  "intervalId s = None \<Longrightarrow> \<not> paused s \<Longrightarrow>
   \<not> startBtn_disabled s \<Longrightarrow> pauseBtn_disabled s \<Longrightarrow> stopBtn_disabled s \<Longrightarrow>
     updateButtons (s\<lparr>paused := False\<rparr>) = s"
  by (intro state.equality) (simp_all add: updateButtons_def)

lemma stopAuto_stopped:
  assumes "wired s" "sessionState s = Stopped"
  shows "snd (stopAuto s) = s\<lparr>console := console s @ [''[auto] stopped'']\<rparr>"
proof -
  have idle: "intervalId s = None \<and> \<not> paused s"
    using assms by (rule wired_stopped)
  then have "\<not> startBtn_disabled s \<and> pauseBtn_disabled s \<and> stopBtn_disabled s"
    using assms(1) by (simp add: stopped_buttons)
  with idle have same: "updateButtons (s\<lparr>paused := False\<rparr>) = s"
    by (simp add: updateButtons_stopped)
  have "snd (stopAuto s) =
      (updateButtons (s\<lparr>paused := False\<rparr>))\<lparr>console :=
         console (updateButtons (s\<lparr>paused := False\<rparr>)) @ [''[auto] stopped'']\<rparr>"
    using idle by (simp add: stopAuto_def stopAuto_tail_def Let_def)
  then show ?thesis
    by (simp only: same)
qed

lemma detached_fire:
  assumes "\<not> panel_attached s" "e \<noteq> ConsoleStop"
  shows "\<not> panel_attached (fire e s) \<and> intervalId (fire e s) = intervalId s \<and>
         paused (fire e s) = paused s \<and> timers (fire e s) = timers s \<and>
         observing (fire e s) = observing s"
  using assms by (cases e) (simp_all add: clickIfFound_frame)

lemma detached_run:
  "\<not> panel_attached s \<Longrightarrow> ConsoleStop \<notin> set evs \<Longrightarrow>
     \<not> panel_attached (run evs s) \<and> intervalId (run evs s) = intervalId s \<and>
     paused (run evs s) = paused s \<and> timers (run evs s) = timers s \<and>
     observing (run evs s) = observing s"
proof (induction evs arbitrary: s)
  case Nil
  then show ?case by simp
next
  case (Cons e evs)
  have "e \<noteq> ConsoleStop"
    using Cons.prems(2) by auto
  with Cons.prems(1) have step: "\<not> panel_attached (fire e s) \<and> intervalId (fire e s) = intervalId s \<and>
         paused (fire e s) = paused s \<and> timers (fire e s) = timers s \<and>
         observing (fire e s) = observing s"
    by (rule detached_fire)
  with Cons.prems(2) Cons.IH [of "fire e s"] show ?case by simp
qed

lemma healthy_running:
  "healthy s \<Longrightarrow> sessionState s = Running \<Longrightarrow> length (timers s) = 1 \<and> length (observing s) = 1"
  by (cases "intervalId s") (auto simp: healthy_def wired_def sessionState_def split: if_splits)

lemma startAuto_effect:
  "wired s \<Longrightarrow> fst (startAuto True s) = Normal \<and> sessionState (snd (startAuto True s)) = Running"
  by (auto simp: wired_def startAuto_def setInterval_def newMutationObserver_def
        updateButtons_def sessionState_def Let_def)

lemma wired_reach: "wired (run evs loaded)"
  by (rule wired_run [OF wired_loaded])

lemma healthy_reach: "list_all body_present evs \<Longrightarrow> healthy (run evs loaded)"
  by (rule healthy_run [OF healthy_loaded])

lemma startAuto_without_body:
  assumes "wired s" "intervalId s = None"
  shows "fst (startAuto False s) = TypeError \<and>
         sessionState (snd (startAuto False s)) = Running \<and>
         length (timers (snd (startAuto False s))) = 1 \<and>
         observing (snd (startAuto False s)) = [] \<and>
         panel_enabled (snd (startAuto False s)) = panel_enabled s \<and>
         console (snd (startAuto False s)) = console s"
  using assms
  by (auto simp: wired_def startAuto_def setInterval_def newMutationObserver_def
        sessionState_def panel_enabled_def Let_def)

lemma startAuto_fresh:
  "wired s \<Longrightarrow> sessionState s \<noteq> Running \<Longrightarrow> healthy (snd (startAuto True s))"
  by (cases "intervalId s")
     (auto simp: healthy_def wired_def startAuto_def setInterval_def newMutationObserver_def
        updateButtons_def panel_enabled_def panel_projection_def sessionState_def Let_def)

lemma pauseAuto_synced:
  "wired s \<Longrightarrow>
     panel_enabled (snd (pauseAuto s)) = panel_projection (sessionState (snd (pauseAuto s)))"
  by (cases "intervalId s")
     (auto simp: wired_def pauseAuto_def clearInterval_def disconnect_def updateButtons_def
        panel_enabled_def panel_projection_def sessionState_def Let_def split: option.splits)

lemma stopAuto_synced:
  "wired s \<Longrightarrow>
     panel_enabled (snd (stopAuto s)) = panel_projection (sessionState (snd (stopAuto s)))"
  by (cases "intervalId s")
     (auto simp: wired_def stopAuto_def stopAuto_tail_def clearInterval_def disconnect_def
        updateButtons_def panel_enabled_def panel_projection_def sessionState_def Let_def
        split: option.splits)

lemma unpaused_fire:
  assumes "intervalId s \<noteq> None \<longrightarrow> \<not> paused s"
  shows "intervalId (fire e s) \<noteq> None \<longrightarrow> \<not> paused (fire e s)"
proof (cases e)
  case (PressStart body)
  then show ?thesis
    using assms
    by (auto simp: startAuto_def setInterval_def newMutationObserver_def updateButtons_def Let_def)
next
  case PressPause
  then show ?thesis
    using assms
    by (auto simp: pauseAuto_def clearInterval_def disconnect_def updateButtons_def Let_def
          split: option.splits)
next
  case PressStop
  then show ?thesis
    using assms
    by (auto simp: stopAuto_def stopAuto_tail_def clearInterval_def disconnect_def
          updateButtons_def Let_def split: option.splits)
next
  case ConsoleStop
  then show ?thesis
    using assms
    by (auto simp: stopAuto_def stopAuto_tail_def clearInterval_def disconnect_def
          updateButtons_def Let_def split: option.splits)
qed (use assms in \<open>simp_all add: clickIfFound_frame\<close>)

lemma unpaused_run:
  "(intervalId s \<noteq> None \<longrightarrow> \<not> paused s) \<Longrightarrow>
     intervalId (run evs s) \<noteq> None \<longrightarrow> \<not> paused (run evs s)"
proof (induction evs arbitrary: s)
  case Nil
  then show ?case by simp
next
  case (Cons e evs)
  have "intervalId (fire e s) \<noteq> None \<longrightarrow> \<not> paused (fire e s)"
    using Cons.prems by (rule unpaused_fire)
  then show ?case
    using Cons.IH [of "fire e s"] by simp
qed

lemma unpaused_reach: "intervalId (run evs loaded) \<noteq> None \<longrightarrow> \<not> paused (run evs loaded)"
  by (rule unpaused_run) (simp add: loaded_eq)

lemma startAuto_unpauses:
  "(intervalId s \<noteq> None \<longrightarrow> \<not> paused s) \<Longrightarrow> \<not> paused (snd (startAuto body s))"
  by (cases "intervalId s")
     (auto simp: startAuto_def setInterval_def newMutationObserver_def updateButtons_def Let_def)

lemma idle_synced:
  "wired s \<Longrightarrow> sessionState s \<noteq> Running \<Longrightarrow>
     panel_enabled s = panel_projection (sessionState s)"
  by (cases "intervalId s") (auto simp: wired_def sessionState_def)

section \<open>The claims\<close>

text \<open>
  C1. Whatever events reach the loaded script (timer callbacks, observer callbacks,
  clicks on the panel, the console stop), any two activations it has performed are at
  least \<open>COOLDOWN_MS\<close> (2500 ms) apart in the clock readings they were made at, the
  later one after the earlier one; and \<open>lastClick\<close> is the reading of the latest
  activation (0 while there is none). The readings are those of \<open>Date.now()\<close>, as
  the code measures the window.
\<close>

theorem cooldown_invariant:
  "(\<forall>i j. i < j \<and> j < length (clicks (run evs loaded)) \<longrightarrow>
      fst (clicks (run evs loaded) ! i) + COOLDOWN_MS \<le> fst (clicks (run evs loaded) ! j)) \<and>
   lastClick (run evs loaded) = last_activation (run evs loaded)"
proof -
  have sp: "spaced (run evs loaded)"
    by (rule spaced_run [OF spaced_loaded])
  have "sorted_wrt (\<lambda>a b. a + COOLDOWN_MS \<le> b) (map fst (clicks (run evs loaded)))"
    using sp by (simp add: spaced_def)
  then have a: "\<forall>i j. i < j \<and> j < length (clicks (run evs loaded)) \<longrightarrow>
      fst (clicks (run evs loaded) ! i) + COOLDOWN_MS \<le> fst (clicks (run evs loaded) ! j)"
    by (auto simp: sorted_wrt_iff_nth_less)
  have b: "lastClick (run evs loaded) = last_activation (run evs loaded)"
    using sp by (simp add: spaced_def)
  show ?thesis using a b by simp
qed

theorem cooldown_invariant_witness:
  "(0::nat) < 1 \<and> 1 < length (clicks (run burst loaded)) \<and>
   fst (clicks (run burst loaded) ! 0) + COOLDOWN_MS \<le> fst (clicks (run burst loaded) ! 1) \<and>
   map fst (clicks (run burst loaded)) = [5000, 7500]"
proof -
  have m: "map fst (clicks (run burst loaded)) = [5000, 7500]"
    by (simp add: burst_def loaded_eq model_defs)
  then have l: "length (clicks (run burst loaded)) = 2"
    by (metis length_map length_Cons list.size(3) numeral_2_eq_2)
  have h: "(0::nat) < 1 \<and> 1 < length (clicks (run burst loaded))"
    using l by simp
  from cooldown_invariant [of burst] h
  have "fst (clicks (run burst loaded) ! 0) + COOLDOWN_MS \<le> fst (clicks (run burst loaded) ! 1)"
    by blast
  with h m show ?thesis by simp
qed

text \<open>
  C2, as stated, fails for Stopped: the only gate in \<open>clickIfFound\<close> is the
  \<open>paused\<close> flag, which \<open>stopAuto\<close> clears. Called in the Stopped state that
  follows \<open>stopAuto\<close>, it queries the document and activates the button.
\<close>

theorem scan_when_stopped:
  "sessionState (snd (stopAuto loaded)) = Stopped \<and>
   clicks (snd (stopAuto loaded)) = [] \<and> queries (snd (stopAuto loaded)) = 0 \<and>
   clicks (clickIfFound 5000 [continue_button] (snd (stopAuto loaded))) = [(5000, continue_button)] \<and>
   queries (clickIfFound 5000 [continue_button] (snd (stopAuto loaded))) = 1"
  by (simp add: loaded_eq model_defs)

text \<open>
  C2 (amended). A call of \<open>clickIfFound\<close> while \<open>paused\<close> is set returns the
  state unchanged: no query, no activation. In every state the loaded script can
  reach, when the session is not Running (Stopped or Paused) no timer is active and
  no observer is connected, so a timer or observer callback does not reach
  \<open>clickIfFound\<close> at all and leaves the state as it is.
\<close>

theorem scan_gated:
  "(paused s \<longrightarrow> clickIfFound now doc s = s) \<and>
   (sessionState (run evs loaded) \<noteq> Running \<longrightarrow>
      fire (TimerTick now doc) (run evs loaded) = run evs loaded \<and>
      fire (Mutation now doc) (run evs loaded) = run evs loaded)"
  using idle_triggers [OF wired_reach, of evs now doc]
  by (simp add: clickIfFound_def)

theorem scan_gated_witness:
  "paused (snd (pauseAuto loaded)) \<and>
   clickIfFound 5000 [continue_button] (snd (pauseAuto loaded)) = snd (pauseAuto loaded) \<and>
   sessionState (run [PressPause] loaded) = Paused \<and>
   fire (TimerTick 5000 [continue_button]) (run [PressPause] loaded) = run [PressPause] loaded \<and>
   fire (Mutation 5000 [continue_button]) (run [PressPause] loaded) = run [PressPause] loaded"
proof -
  have p: "paused (snd (pauseAuto loaded))"
    by (simp add: loaded_eq model_defs)
  have q: "sessionState (run [PressPause] loaded) = Paused"
    by (simp add: loaded_eq model_defs)
  then have q': "sessionState (run [PressPause] loaded) \<noteq> Running"
    by simp
  from scan_gated [of "snd (pauseAuto loaded)" 5000 "[continue_button]" "[PressPause]"] p q' q
  show ?thesis by blast
qed

text \<open>
  C3. One call of \<open>clickIfFound\<close> adds at most one activation; when it gets past
  the two gates and some selected element qualifies (visible, trimmed text equal to
  Continue), the one activation is of the first qualifying element in document order.
\<close>

theorem first_match_activated:
  "length (clicks (clickIfFound now doc s)) \<le> Suc (length (clicks s)) \<and>
   (\<not> paused s \<and> COOLDOWN_MS \<le> now - lastClick s \<and>
    filter qualifies (querySelectorAll doc) \<noteq> [] \<longrightarrow>
      clicks (clickIfFound now doc s)
        = clicks s @ [(now, hd (filter qualifies (querySelectorAll doc)))])"
  by (auto simp: clickIfFound_def scan_buttons_filter activated_def split: list.splits)

theorem first_match_activated_witness:
  "\<not> paused loaded \<and> COOLDOWN_MS \<le> 5000 - lastClick loaded \<and>
   filter qualifies (querySelectorAll
      [hidden_continue, continue_anyway, continue_button, second_continue]) \<noteq> [] \<and>
   clicks (clickIfFound 5000
      [hidden_continue, continue_anyway, continue_button, second_continue] loaded)
     = [(5000, continue_button)]"
proof -
  let ?doc = "[hidden_continue, continue_anyway, continue_button, second_continue]"
  have f: "filter qualifies (querySelectorAll ?doc) = [continue_button, second_continue]"
    by (simp add: qualifies_def model_defs)
  have h: "\<not> paused loaded \<and> COOLDOWN_MS \<le> 5000 - lastClick loaded \<and>
           filter qualifies (querySelectorAll ?doc) \<noteq> []"
    by (simp add: f) (simp add: loaded_eq COOLDOWN_MS_def)
  from first_match_activated [of 5000 ?doc loaded] h
  have "clicks (clickIfFound 5000 ?doc loaded)
          = clicks loaded @ [(5000, hd (filter qualifies (querySelectorAll ?doc)))]"
    by blast
  then have "clicks (clickIfFound 5000 ?doc loaded) = [(5000, continue_button)]"
    by (simp add: f) (simp add: loaded_eq)
  with h show ?thesis by blast
qed

text \<open>
  C4. An element whose trimmed text is not exactly Continue is passed over by the
  loop as if it were absent, and a scan at \<open>now\<close> does not activate it. The labels
  "Continue Anyway" and " continue " are such elements (the witness).
\<close>

theorem exact_label_required:
  assumes "trim (textContent b) \<noteq> str ''Continue''"
  shows "scan_buttons now (pre @ b # post) s = scan_buttons now (pre @ post) s \<and>
         ((now, b) \<in> set (clicks (clickIfFound now doc s)) \<longrightarrow> (now, b) \<in> set (clicks s))"
proof -
  have nq: "\<not> qualifies b"
    using assms by (simp add: qualifies_def)
  have "\<And>bs rest. filter qualifies bs \<noteq> b # rest"
    using nq by (metis filter_eq_ConsD)
  then have "(now, b) \<in> set (clicks (clickIfFound now doc s)) \<longrightarrow> (now, b) \<in> set (clicks s)"
    by (auto simp: clickIfFound_def scan_buttons_filter activated_def split: list.splits if_splits)
  then show ?thesis
    using scan_buttons_skip [OF nq] by simp
qed

theorem exact_label_required_witness:
  "trim (textContent continue_anyway) = str ''Continue Anyway'' \<and>
   trim (textContent lowercase_continue) = str ''continue'' \<and>
   trim (textContent continue_anyway) \<noteq> str ''Continue'' \<and>
   trim (textContent lowercase_continue) \<noteq> str ''Continue'' \<and>
   scan_buttons 5000 [continue_anyway, lowercase_continue] loaded = loaded \<and>
   clicks (clickIfFound 5000 [continue_anyway, lowercase_continue] loaded) = []"
proof -
  have t1: "trim (textContent continue_anyway) = str ''Continue Anyway''"
    and t2: "trim (textContent lowercase_continue) = str ''continue''"
    by (simp_all add: model_defs)
  have h1: "trim (textContent continue_anyway) \<noteq> str ''Continue''"
    and h2: "trim (textContent lowercase_continue) \<noteq> str ''Continue''"
    by (simp_all add: model_defs)
  have "scan_buttons 5000 ([] @ continue_anyway # [lowercase_continue]) loaded
          = scan_buttons 5000 ([] @ [lowercase_continue]) loaded"
    using exact_label_required [OF h1] by blast
  moreover have "scan_buttons 5000 ([] @ lowercase_continue # []) loaded
          = scan_buttons 5000 ([] @ []) loaded"
    using exact_label_required [OF h2] by blast
  ultimately have s: "scan_buttons 5000 [continue_anyway, lowercase_continue] loaded = loaded"
    by simp
  have c: "clicks (clickIfFound 5000 [continue_anyway, lowercase_continue] loaded) = []"
    by (simp add: loaded_eq model_defs)
  from t1 t2 h1 h2 s c show ?thesis by blast
qed

text \<open>
  C5, as stated, fails for "exactly one subscription": after a stop and a click on Start
  whose \<open>observe\<close> threw, the session is Running with one timer and no connected
  observer, and calling \<open>startAuto\<close> twice there returns at its first line both
  times: still Running, one timer, no observer.
\<close>

theorem start_without_subscription:
  "sessionState (run attach_failed loaded) = Running \<and>
   fst (startAuto True (run attach_failed loaded)) = Normal \<and>
   startAuto True (snd (startAuto True (run attach_failed loaded)))
     = (Normal, snd (startAuto True (run attach_failed loaded))) \<and>
   sessionState (snd (startAuto True (snd (startAuto True (run attach_failed loaded))))) = Running \<and>
   length (timers (snd (startAuto True (snd (startAuto True (run attach_failed loaded)))))) = 1 \<and>
   length (observing (snd (startAuto True (snd (startAuto True (run attach_failed loaded)))))) = 0"
  by (simp add: attach_failed_def loaded_eq model_defs)

text \<open>
  C5 (amended). In every state the loaded script can reach, \<open>startAuto\<close> (with
  \<open>document.body\<close> an element) returns normally and leaves the session Running,
  with \<open>paused\<close> false and exactly one active timer, whose callback runs
  \<open>clickIfFound\<close>; a second \<open>startAuto\<close> right after it changes nothing.
  Exactly one observer is connected afterwards, and its callback runs
  \<open>clickIfFound\<close>, whenever the call started from Stopped or Paused, and also from
  Running when \<open>document.body\<close> was an element at every earlier click on Start.
  A start from Stopped or Paused whose \<open>observe\<close> throws leaves one timer and no
  observer, and a later \<open>startAuto\<close> does not change that.
\<close>

theorem start_idempotent:
  "fst (startAuto True (run evs loaded)) = Normal \<and>
   startAuto True (snd (startAuto True (run evs loaded)))
     = (Normal, snd (startAuto True (run evs loaded))) \<and>
   sessionState (snd (startAuto True (run evs loaded))) = Running \<and>
   paused (snd (startAuto True (run evs loaded))) = False \<and>
   length (timers (snd (startAuto True (run evs loaded)))) = 1 \<and>
   fire (TimerTick now doc) (snd (startAuto True (run evs loaded)))
     = clickIfFound now doc (snd (startAuto True (run evs loaded))) \<and>
   (sessionState (run evs loaded) \<noteq> Running \<or> list_all body_present evs \<longrightarrow>
      length (observing (snd (startAuto True (run evs loaded)))) = 1 \<and>
      fire (Mutation now doc) (snd (startAuto True (run evs loaded)))
        = clickIfFound now doc (snd (startAuto True (run evs loaded)))) \<and>
   (sessionState (run evs loaded) \<noteq> Running \<longrightarrow>
      length (timers (snd (startAuto False (run evs loaded)))) = 1 \<and>
      length (observing (snd (startAuto False (run evs loaded)))) = 0 \<and>
      startAuto True (snd (startAuto False (run evs loaded)))
        = (Normal, snd (startAuto False (run evs loaded))))"
proof -
  let ?s = "run evs loaded"
  let ?t = "snd (startAuto True ?s)"
  let ?f = "snd (startAuto False ?s)"
  have w: "wired ?s"
    by (rule wired_reach)
  have r: "fst (startAuto True ?s) = Normal \<and> sessionState ?t = Running"
    using w by (rule startAuto_effect)
  then have tr: "truthy (intervalId ?t)"
    by (simp add: sessionState_def split: if_splits)
  then have i: "startAuto True ?t = (Normal, ?t)"
    by (rule startAuto_running)
  have p: "paused ?t = False"
    using startAuto_unpauses [OF unpaused_reach] by simp
  have "wired ?t"
    using w by (rule wired_startAuto)
  then have t: "length (timers ?t) = 1"
    using tr by (cases "intervalId ?t") (auto simp: wired_def)
  then have "timers ?t \<noteq> []"
    by auto
  then have k: "fire (TimerTick now doc) ?t = clickIfFound now doc ?t"
    by simp
  have o: "sessionState ?s \<noteq> Running \<or> list_all body_present evs \<longrightarrow>
     length (observing ?t) = 1 \<and> fire (Mutation now doc) ?t = clickIfFound now doc ?t"
  proof
    assume "sessionState ?s \<noteq> Running \<or> list_all body_present evs"
    then have "healthy ?t"
    proof
      assume "sessionState ?s \<noteq> Running"
      with w show ?thesis by (rule startAuto_fresh)
    next
      assume "list_all body_present evs"
      then have "healthy ?s" by (rule healthy_reach)
      then show ?thesis by (rule healthy_startAuto)
    qed
    then have l: "length (observing ?t) = 1"
      using r by (simp add: healthy_running)
    then have "observing ?t \<noteq> []"
      by auto
    then have "fire (Mutation now doc) ?t = clickIfFound now doc ?t"
      by simp
    with l show "length (observing ?t) = 1 \<and>
        fire (Mutation now doc) ?t = clickIfFound now doc ?t"
      by simp
  qed
  have f: "sessionState ?s \<noteq> Running \<longrightarrow>
      length (timers ?f) = 1 \<and> length (observing ?f) = 0 \<and> startAuto True ?f = (Normal, ?f)"
  proof
    assume n: "sessionState ?s \<noteq> Running"
    then have "intervalId ?s = None"
      using w by (simp add: wired_idle)
    with w have e: "fst (startAuto False ?s) = TypeError \<and>
         sessionState ?f = Running \<and> length (timers ?f) = 1 \<and> observing ?f = [] \<and>
         panel_enabled ?f = panel_enabled ?s \<and> console ?f = console ?s"
      by (rule startAuto_without_body)
    then have "truthy (intervalId ?f)"
      by (simp add: sessionState_def split: if_splits)
    then have "startAuto True ?f = (Normal, ?f)"
      by (rule startAuto_running)
    with e show "length (timers ?f) = 1 \<and> length (observing ?f) = 0 \<and>
        startAuto True ?f = (Normal, ?f)"
      by simp
  qed
  from r i p t k o f show ?thesis by blast
qed

theorem start_idempotent_witness:
  "list_all body_present [PressPause] \<and>
   sessionState (run [PressPause] loaded) = Paused \<and>
   paused (run [PressPause] loaded) = True \<and>
   timers (run [PressPause] loaded) = [] \<and>
   sessionState (snd (startAuto True (run [PressPause] loaded))) = Running \<and>
   paused (snd (startAuto True (run [PressPause] loaded))) = False \<and>
   timers (snd (startAuto True (run [PressPause] loaded))) = [2] \<and>
   length (observing (snd (startAuto True (run [PressPause] loaded)))) = 1 \<and>
   length (observing (snd (startAuto False (run [PressPause] loaded)))) = 0 \<and>
   startAuto True (snd (startAuto True (run [PressPause] loaded)))
     = (Normal, snd (startAuto True (run [PressPause] loaded)))"
proof -
  have h: "list_all body_present [PressPause]"
    by simp
  have a: "sessionState (run [PressPause] loaded) = Paused \<and>
           paused (run [PressPause] loaded) = True \<and> timers (run [PressPause] loaded) = []"
    by (simp add: loaded_eq model_defs)
  then have n: "sessionState (run [PressPause] loaded) \<noteq> Running"
    by simp
  have b: "timers (snd (startAuto True (run [PressPause] loaded))) = [2]"
    by (simp add: loaded_eq model_defs)
  from start_idempotent [of "[PressPause]"] h a n b show ?thesis by blast
qed

text \<open>
  C6, as stated, fails for "all mutable state back to its initial values":
  \<open>stopAuto\<close> assigns neither \<open>lastClick\<close> nor \<open>observer\<close>. After one
  activation at 5000 and a stop, \<open>lastClick\<close> is 5000 (initially 0) and
  \<open>observer\<close> still refers to the observer created at start (initially null).
\<close>

theorem stop_keeps_cooldown:
  "lastClick (snd (stopAuto (fire (TimerTick 5000 [continue_button]) loaded))) = 5000 \<and>
   lastClick initial = 0 \<and>
   observer (snd (stopAuto (fire (TimerTick 5000 [continue_button]) loaded))) = Some 1 \<and>
   observer initial = None"
  by (simp add: loaded_eq initial_def model_defs)

text \<open>
  C6 (amended). In every state the loaded script can reach, \<open>stopAuto\<close> returns
  normally and leaves the session Stopped: \<open>intervalId\<close> null, \<open>paused\<close> false,
  no active timer, no connected observer; \<open>lastClick\<close> and \<open>observer\<close> keep
  their values. From Stopped it changes nothing but the console. After it, as long as
  Start is not clicked, the session stays Stopped and nothing is queried or activated.
\<close>

theorem stop_resets_session:
  "fst (stopAuto (run evs loaded)) = Normal \<and>
   sessionState (snd (stopAuto (run evs loaded))) = Stopped \<and>
   intervalId (snd (stopAuto (run evs loaded))) = None \<and>
   paused (snd (stopAuto (run evs loaded))) = False \<and>
   timers (snd (stopAuto (run evs loaded))) = [] \<and>
   observing (snd (stopAuto (run evs loaded))) = [] \<and>
   lastClick (snd (stopAuto (run evs loaded))) = lastClick (run evs loaded) \<and>
   observer (snd (stopAuto (run evs loaded))) = observer (run evs loaded) \<and>
   (sessionState (run evs loaded) = Stopped \<longrightarrow>
      snd (stopAuto (run evs loaded))
        = (run evs loaded)\<lparr>console := console (run evs loaded) @ [''[auto] stopped'']\<rparr>) \<and>
   (list_all (\<lambda>e. \<not> is_start e) later \<longrightarrow>
      sessionState (run later (snd (stopAuto (run evs loaded)))) = Stopped \<and>
      clicks (run later (snd (stopAuto (run evs loaded)))) = clicks (run evs loaded) \<and>
      queries (run later (snd (stopAuto (run evs loaded)))) = queries (run evs loaded))"
proof -
  let ?s = "run evs loaded"
  let ?t = "snd (stopAuto ?s)"
  have w: "wired ?s"
    by (rule wired_reach)
  have e: "fst (stopAuto ?s) = Normal \<and> intervalId ?t = None \<and>
         \<not> paused ?t \<and> timers ?t = [] \<and> observing ?t = [] \<and> lastClick ?t = lastClick ?s \<and>
         observer ?t = observer ?s \<and> clicks ?t = clicks ?s \<and> queries ?t = queries ?s"
    using w by (rule stopAuto_effect)
  then have st: "sessionState ?t = Stopped"
    by (simp add: sessionState_def)
  have noop: "sessionState ?s = Stopped \<longrightarrow>
      ?t = ?s\<lparr>console := console ?s @ [''[auto] stopped'']\<rparr>"
    using w by (simp add: stopAuto_stopped)
  have wt: "wired ?t"
    using w by (rule wired_stopAuto)
  have "list_all (\<lambda>e. \<not> is_start e) later \<longrightarrow>
      sessionState (run later ?t) = Stopped \<and> clicks (run later ?t) = clicks ?s \<and>
      queries (run later ?t) = queries ?s"
  proof
    assume l: "list_all (\<lambda>e. \<not> is_start e) later"
    have "intervalId (run later ?t) = None \<and> \<not> paused (run later ?t) \<and>
          clicks (run later ?t) = clicks ?t \<and> queries (run later ?t) = queries ?t"
      using wt e l by (intro idle_run) simp_all
    with e show "sessionState (run later ?t) = Stopped \<and> clicks (run later ?t) = clicks ?s \<and>
      queries (run later ?t) = queries ?s"
      by (simp add: sessionState_def)
  qed
  with e st noop show ?thesis by simp
qed

theorem stop_resets_session_witness:
  "sessionState (run [PressPause] loaded) = Paused \<and>
   sessionState (snd (stopAuto (run [PressPause] loaded))) = Stopped \<and>
   sessionState (run [PressStop] loaded) = Stopped \<and>
   snd (stopAuto (run [PressStop] loaded))
     = (run [PressStop] loaded)\<lparr>console := console (run [PressStop] loaded) @ [''[auto] stopped'']\<rparr> \<and>
   list_all (\<lambda>e. \<not> is_start e) while_stopped \<and>
   clicks (run while_stopped (snd (stopAuto (run [PressPause] loaded)))) = []"
proof -
  have a: "sessionState (run [PressPause] loaded) = Paused"
    by (simp add: loaded_eq model_defs)
  have b: "sessionState (run [PressStop] loaded) = Stopped"
    by (simp add: loaded_eq model_defs)
  have c: "list_all (\<lambda>e. \<not> is_start e) while_stopped"
    by (simp add: while_stopped_def)
  have d: "clicks (run [PressPause] loaded) = []"
    by (simp add: loaded_eq model_defs)
  from stop_resets_session [of "[PressPause]" while_stopped] c d
  have "sessionState (snd (stopAuto (run [PressPause] loaded))) = Stopped \<and>
        clicks (run while_stopped (snd (stopAuto (run [PressPause] loaded)))) = []"
    by simp
  moreover from stop_resets_session [of "[PressStop]" "[]"] b
  have "snd (stopAuto (run [PressStop] loaded))
     = (run [PressStop] loaded)\<lparr>console := console (run [PressStop] loaded) @ [''[auto] stopped'']\<rparr>"
    by blast
  ultimately show ?thesis using a b c by blast
qed

text \<open>
  C7, as stated, fails for the start whose \<open>observe\<close> throws: from Stopped it makes
  the session Running without reaching \<open>updateButtons\<close>, so Start stays enabled and
  Pause and Stop stay disabled, and a later \<open>startAuto\<close>, a no-op, keeps them so.
\<close>

theorem buttons_stale_after_failed_start:
  "sessionState (run [PressStop] loaded) = Stopped \<and>
   fst (startAuto False (run [PressStop] loaded)) = TypeError \<and>
   sessionState (snd (startAuto False (run [PressStop] loaded))) = Running \<and>
   panel_enabled (snd (startAuto False (run [PressStop] loaded))) = (True, False, False) \<and>
   panel_projection (sessionState (snd (startAuto False (run [PressStop] loaded))))
     = (False, True, True) \<and>
   run attach_failed loaded = snd (startAuto False (run [PressStop] loaded)) \<and>
   sessionState (snd (startAuto True (run attach_failed loaded))) = Running \<and>
   panel_enabled (snd (startAuto True (run attach_failed loaded))) = (True, False, False)"
  by (simp add: attach_failed_def loaded_eq panel_enabled_def panel_projection_def model_defs)

text \<open>
  C7 (amended). In every state the loaded script can reach, after \<open>pauseAuto\<close>, after
  \<open>stopAuto\<close>, and after a \<open>startAuto\<close> from Stopped or Paused that attaches its
  observer, the three buttons are enabled exactly as the resulting Session State
  says: Start when not Running, Pause when Running, Stop when Running or Paused. The
  same holds in the state itself, and after the no-op \<open>startAuto\<close> from Running,
  when \<open>document.body\<close> was an element at every earlier click on Start. A start
  from Stopped or Paused whose \<open>observe\<close> throws makes the session Running and
  leaves the buttons as the state before the call projected them, and a later
  \<open>startAuto\<close> keeps them so.
\<close>

theorem buttons_project_state:
  "panel_enabled (snd (pauseAuto (run evs loaded)))
     = panel_projection (sessionState (snd (pauseAuto (run evs loaded)))) \<and>
   panel_enabled (snd (stopAuto (run evs loaded)))
     = panel_projection (sessionState (snd (stopAuto (run evs loaded)))) \<and>
   (sessionState (run evs loaded) \<noteq> Running \<or> list_all body_present evs \<longrightarrow>
      panel_enabled (snd (startAuto True (run evs loaded)))
        = panel_projection (sessionState (snd (startAuto True (run evs loaded))))) \<and>
   (list_all body_present evs \<longrightarrow>
      panel_enabled (run evs loaded) = panel_projection (sessionState (run evs loaded))) \<and>
   (sessionState (run evs loaded) \<noteq> Running \<longrightarrow>
      sessionState (snd (startAuto False (run evs loaded))) = Running \<and>
      panel_enabled (snd (startAuto False (run evs loaded)))
        = panel_projection (sessionState (run evs loaded)) \<and>
      panel_enabled (snd (startAuto True (snd (startAuto False (run evs loaded)))))
        = panel_projection (sessionState (run evs loaded)))"
proof -
  let ?s = "run evs loaded"
  let ?f = "snd (startAuto False ?s)"
  have w: "wired ?s"
    by (rule wired_reach)
  have a: "sessionState ?s \<noteq> Running \<or> list_all body_present evs \<longrightarrow>
      panel_enabled (snd (startAuto True ?s))
        = panel_projection (sessionState (snd (startAuto True ?s)))"
  proof
    assume "sessionState ?s \<noteq> Running \<or> list_all body_present evs"
    then have "healthy (snd (startAuto True ?s))"
    proof
      assume "sessionState ?s \<noteq> Running"
      with w show ?thesis by (rule startAuto_fresh)
    next
      assume "list_all body_present evs"
      then have "healthy ?s" by (rule healthy_reach)
      then show ?thesis by (rule healthy_startAuto)
    qed
    then show "panel_enabled (snd (startAuto True ?s))
        = panel_projection (sessionState (snd (startAuto True ?s)))"
      by (simp add: healthy_def)
  qed
  have b: "list_all body_present evs \<longrightarrow>
      panel_enabled ?s = panel_projection (sessionState ?s)"
    using healthy_reach [of evs] by (simp add: healthy_def)
  have c: "sessionState ?s \<noteq> Running \<longrightarrow>
      sessionState ?f = Running \<and> panel_enabled ?f = panel_projection (sessionState ?s) \<and>
      panel_enabled (snd (startAuto True ?f)) = panel_projection (sessionState ?s)"
  proof
    assume n: "sessionState ?s \<noteq> Running"
    then have "intervalId ?s = None"
      using w by (simp add: wired_idle)
    with w have e: "fst (startAuto False ?s) = TypeError \<and>
         sessionState ?f = Running \<and> length (timers ?f) = 1 \<and> observing ?f = [] \<and>
         panel_enabled ?f = panel_enabled ?s \<and> console ?f = console ?s"
      by (rule startAuto_without_body)
    then have "truthy (intervalId ?f)"
      by (simp add: sessionState_def split: if_splits)
    then have same: "startAuto True ?f = (Normal, ?f)"
      by (rule startAuto_running)
    have "panel_enabled ?s = panel_projection (sessionState ?s)"
      using w n by (rule idle_synced)
    with e same show "sessionState ?f = Running \<and>
      panel_enabled ?f = panel_projection (sessionState ?s) \<and>
      panel_enabled (snd (startAuto True ?f)) = panel_projection (sessionState ?s)"
      by simp
  qed
  from a b c pauseAuto_synced [OF w] stopAuto_synced [OF w] show ?thesis by blast
qed

theorem buttons_project_state_witness:
  "list_all body_present [PressPause, PressStart True] \<and>
   panel_enabled (run [PressPause, PressStart True] loaded) = (False, True, True) \<and>
   sessionState (run [PressPause, PressStart True] loaded) = Running \<and>
   panel_enabled (snd (pauseAuto (run [PressPause, PressStart True] loaded))) = (True, False, True) \<and>
   sessionState (snd (pauseAuto (run [PressPause, PressStart True] loaded))) = Paused \<and>
   panel_enabled (snd (stopAuto (run [PressPause, PressStart True] loaded))) = (True, False, False) \<and>
   sessionState (snd (stopAuto (run [PressPause, PressStart True] loaded))) = Stopped \<and>
   panel_enabled (snd (startAuto True (run [PressPause] loaded))) = (False, True, True) \<and>
   sessionState (snd (startAuto True (run [PressPause] loaded))) = Running \<and>
   panel_enabled (snd (startAuto False (run [PressPause] loaded))) = (True, False, True) \<and>
   sessionState (snd (startAuto False (run [PressPause] loaded))) = Running"
proof -
  let ?s = "run [PressPause, PressStart True] loaded"
  have h: "list_all body_present [PressPause, PressStart True]"
    by simp
  have h': "list_all body_present [PressPause]"
    by simp
  have a: "sessionState ?s = Running"
    by (simp add: loaded_eq model_defs)
  have b: "sessionState (snd (pauseAuto ?s)) = Paused"
    by (simp add: loaded_eq model_defs)
  have c: "sessionState (snd (stopAuto ?s)) = Stopped"
    by (simp add: loaded_eq model_defs)
  have d: "sessionState (snd (startAuto True (run [PressPause] loaded))) = Running"
    by (simp add: loaded_eq model_defs)
  have e: "sessionState (run [PressPause] loaded) = Paused"
    by (simp add: loaded_eq model_defs)
  from buttons_project_state [of "[PressPause, PressStart True]"]
       buttons_project_state [of "[PressPause]"] a b c d e h h'
  show ?thesis
    by (simp add: panel_projection_def)
qed

text \<open>
  C8, as stated, fails: from Stopped, \<open>startAuto\<close> with \<open>document.body\<close> null
  ends in the TypeError of \<open>observe\<close>, which it does not catch, with the timer
  registered and \<open>intervalId\<close> set: the session is Running.
\<close>

theorem start_without_body:
  "sessionState (snd (stopAuto loaded)) = Stopped \<and>
   fst (startAuto False (snd (stopAuto loaded))) = TypeError \<and>
   sessionState (snd (startAuto False (snd (stopAuto loaded)))) = Running \<and>
   timers (snd (startAuto False (snd (stopAuto loaded)))) = [2]"
  by (simp add: loaded_eq model_defs)

text \<open>
  C8 (amended). When \<open>startAuto\<close> is called in a reachable state that is not
  Running and \<open>document.body\<close> is null, the TypeError of \<open>observe\<close> leaves
  \<open>startAuto\<close> uncaught. By then the timer is registered and \<open>intervalId\<close> set,
  so the session is Running with one active timer and no connected observer; the
  buttons and the console are as before the call, and a later \<open>startAuto\<close> is a
  no-op.
\<close>

theorem start_failure_effect:
  assumes "sessionState (run evs loaded) \<noteq> Running"
  shows "fst (startAuto False (run evs loaded)) = TypeError \<and>
         sessionState (snd (startAuto False (run evs loaded))) = Running \<and>
         length (timers (snd (startAuto False (run evs loaded)))) = 1 \<and>
         observing (snd (startAuto False (run evs loaded))) = [] \<and>
         panel_enabled (snd (startAuto False (run evs loaded))) = panel_enabled (run evs loaded) \<and>
         console (snd (startAuto False (run evs loaded))) = console (run evs loaded) \<and>
         startAuto True (snd (startAuto False (run evs loaded)))
           = (Normal, snd (startAuto False (run evs loaded)))"
proof -
  let ?s = "run evs loaded"
  have w: "wired ?s"
    by (rule wired_reach)
  then have "intervalId ?s = None"
    using assms by (simp add: wired_idle)
  with w have e: "fst (startAuto False ?s) = TypeError \<and>
         sessionState (snd (startAuto False ?s)) = Running \<and>
         length (timers (snd (startAuto False ?s))) = 1 \<and>
         observing (snd (startAuto False ?s)) = [] \<and>
         panel_enabled (snd (startAuto False ?s)) = panel_enabled ?s \<and>
         console (snd (startAuto False ?s)) = console ?s"
    by (rule startAuto_without_body)
  then have "truthy (intervalId (snd (startAuto False ?s)))"
    by (simp add: sessionState_def split: if_splits)
  then have "startAuto True (snd (startAuto False ?s)) = (Normal, snd (startAuto False ?s))"
    by (rule startAuto_running)
  with e show ?thesis by simp
qed

theorem start_failure_effect_witness:
  "sessionState (run [PressStop] loaded) = Stopped \<and>
   fst (startAuto False (run [PressStop] loaded)) = TypeError \<and>
   sessionState (snd (startAuto False (run [PressStop] loaded))) = Running \<and>
   length (timers (snd (startAuto False (run [PressStop] loaded)))) = 1 \<and>
   observing (snd (startAuto False (run [PressStop] loaded))) = [] \<and>
   panel_enabled (snd (startAuto False (run [PressStop] loaded))) = (True, False, False)"
proof -
  have a: "sessionState (run [PressStop] loaded) = Stopped"
    by (simp add: loaded_eq model_defs)
  then have h: "sessionState (run [PressStop] loaded) \<noteq> Running"
    by simp
  have b: "panel_enabled (run [PressStop] loaded) = (True, False, False)"
    by (simp add: loaded_eq panel_enabled_def model_defs)
  from start_failure_effect [OF h] a b show ?thesis by simp
qed

text \<open>
  C9, as stated, fails: the script ends by calling \<open>startAuto()\<close> itself. Once it
  has loaded the session is Running with no operator action, and the first timer
  callback that finds the button activates it.
\<close>

theorem script_starts_itself:
  "fst (script True) = Normal \<and> sessionState (snd (script True)) = Running \<and>
   clicks (fire (TimerTick 5000 [continue_button]) (snd (script True))) = [(5000, continue_button)]"
proof -
  have "snd (script True) = loaded"
    by (simp add: loaded_def)
  moreover have "fst (script True) = Normal"
    by (simp add: script_def initial_def model_defs)
  ultimately show ?thesis
    by (simp add: loaded_eq model_defs)
qed

text \<open>
  C9 (amended). The closure's variables are declared in the Stopped configuration, with
  no timer and no observer, so no callback can reach \<open>clickIfFound\<close>; but loading
  the script calls \<open>startAuto()\<close>, so the loaded script is Running, with one active
  timer and one connected observer whose callbacks run \<open>clickIfFound\<close>, before any
  operator action.
\<close>

theorem initial_stopped_then_started:
  "sessionState initial = Stopped \<and> timers initial = [] \<and> observing initial = [] \<and>
   fire (TimerTick now doc) initial = initial \<and> fire (Mutation now doc) initial = initial \<and>
   script True = (Normal, loaded) \<and> sessionState loaded = Running \<and>
   length (timers loaded) = 1 \<and> length (observing loaded) = 1 \<and>
   fire (TimerTick now doc) loaded = clickIfFound now doc loaded \<and>
   fire (Mutation now doc) loaded = clickIfFound now doc loaded"
proof -
  have a: "sessionState initial = Stopped \<and> timers initial = [] \<and> observing initial = []"
    by (simp add: initial_def sessionState_def)
  have b: "script True = (Normal, loaded)"
    by (simp add: loaded_def) (simp add: script_def initial_def model_defs)
  have c: "sessionState loaded = Running \<and> length (timers loaded) = 1 \<and>
           length (observing loaded) = 1 \<and> timers loaded \<noteq> [] \<and> observing loaded \<noteq> []"
    by (simp add: loaded_eq sessionState_def)
  from a b c show ?thesis by simp
qed

theorem initial_stopped_then_started_witness:
  "fire (TimerTick 5000 [continue_button]) initial = initial \<and>
   script True = (Normal, loaded) \<and>
   clicks (fire (TimerTick 5000 [continue_button]) loaded) = [(5000, continue_button)]"
proof -
  have "clicks (clickIfFound 5000 [continue_button] loaded) = [(5000, continue_button)]"
    by (simp add: loaded_eq model_defs)
  with initial_stopped_then_started [of 5000 "[continue_button]"] show ?thesis
    by simp
qed

text \<open>
  C10. In any reachable state the close button only detaches the panel: Session State,
  timers and observers are as before. From then on, whatever events follow, as long
  as \<open>window.stopAutoContinue()\<close> is not among them the Session State, the timers
  and the observers stay the same, and if the session was Running a timer callback
  still runs \<open>clickIfFound\<close>; \<open>window.stopAutoContinue()\<close> stops the session.
\<close>

theorem close_leaves_session:
  "fire PressClose (run evs loaded) = (run evs loaded)\<lparr>panel_attached := False\<rparr> \<and>
   sessionState (fire PressClose (run evs loaded)) = sessionState (run evs loaded) \<and>
   timers (fire PressClose (run evs loaded)) = timers (run evs loaded) \<and>
   observing (fire PressClose (run evs loaded)) = observing (run evs loaded) \<and>
   (ConsoleStop \<notin> set later \<longrightarrow>
      sessionState (run later (fire PressClose (run evs loaded))) = sessionState (run evs loaded) \<and>
      timers (run later (fire PressClose (run evs loaded))) = timers (run evs loaded) \<and>
      observing (run later (fire PressClose (run evs loaded))) = observing (run evs loaded) \<and>
      (sessionState (run evs loaded) = Running \<longrightarrow>
         fire (TimerTick now doc) (run later (fire PressClose (run evs loaded)))
           = clickIfFound now doc (run later (fire PressClose (run evs loaded))))) \<and>
   sessionState (fire ConsoleStop (run later (fire PressClose (run evs loaded)))) = Stopped"
proof -
  let ?s = "run evs loaded"
  let ?c = "fire PressClose ?s"
  let ?l = "run later ?c"
  have w: "wired ?s"
    by (rule wired_reach)
  have c: "?c = ?s\<lparr>panel_attached := False\<rparr>"
    by (cases "panel_attached ?s") simp_all
  then have c1: "\<not> panel_attached ?c \<and> intervalId ?c = intervalId ?s \<and> paused ?c = paused ?s \<and>
                 timers ?c = timers ?s \<and> observing ?c = observing ?s"
    by (cases "panel_attached ?s") simp_all
  then have c2: "sessionState ?c = sessionState ?s"
    by (simp add: sessionState_def)
  have wl: "wired ?l"
    by (rule wired_run [OF wired_fire [OF w]])
  have stop: "sessionState (fire ConsoleStop ?l) = Stopped"
    using wl stopAuto_effect [OF wl] by (simp add: wired_def sessionState_def)
  have "ConsoleStop \<notin> set later \<longrightarrow>
      sessionState ?l = sessionState ?s \<and> timers ?l = timers ?s \<and> observing ?l = observing ?s \<and>
      (sessionState ?s = Running \<longrightarrow> fire (TimerTick now doc) ?l = clickIfFound now doc ?l)"
  proof
    assume n: "ConsoleStop \<notin> set later"
    have d: "\<not> panel_attached ?l \<and> intervalId ?l = intervalId ?c \<and> paused ?l = paused ?c \<and>
             timers ?l = timers ?c \<and> observing ?l = observing ?c"
      using c1 n by (intro detached_run) simp_all
    with c1 have same: "sessionState ?l = sessionState ?s \<and> timers ?l = timers ?s \<and>
                        observing ?l = observing ?s"
      by (simp add: sessionState_def)
    have "sessionState ?s = Running \<longrightarrow> timers ?s \<noteq> []"
      using w by (cases "intervalId ?s") (auto simp: wired_def sessionState_def)
    with same show "sessionState ?l = sessionState ?s \<and> timers ?l = timers ?s \<and>
      observing ?l = observing ?s \<and>
      (sessionState ?s = Running \<longrightarrow> fire (TimerTick now doc) ?l = clickIfFound now doc ?l)"
      by simp
  qed
  with c c1 c2 stop show ?thesis by blast
qed

theorem close_leaves_session_witness:
  "sessionState loaded = Running \<and> ConsoleStop \<notin> set after_close \<and>
   panel_attached (fire PressClose loaded) = False \<and>
   sessionState (run after_close (fire PressClose loaded)) = Running \<and>
   clicks (run after_close (fire PressClose loaded)) = [(5000, continue_button)] \<and>
   sessionState (fire ConsoleStop (run after_close (fire PressClose loaded))) = Stopped"
proof -
  have a: "sessionState loaded = Running"
    by (simp add: loaded_eq sessionState_def)
  have n: "ConsoleStop \<notin> set after_close"
    by (simp add: after_close_def)
  have k: "clicks (run after_close (fire PressClose loaded)) = [(5000, continue_button)]"
    by (simp add: after_close_def loaded_eq model_defs)
  have p: "panel_attached (fire PressClose loaded) = False"
    by (simp add: loaded_eq)
  from close_leaves_session [of "[]" after_close] a n k p show ?thesis
    by simp
qed

end
